theory Spec2Isabelle
  imports Main "HOL-Library.Word"
begin

section \<open>Machine types and constants of main.c\<close>

text \<open>
  \<open>unsigned int\<close> and \<open>NvU32\<close> are 32-bit words. \<open>unsigned long\<close> is taken at its
  width in the Linux build (LP64), 64 bits: the options parsed from the command line are
  \<open>unsigned long\<close>, the fields of \<open>gpuState\<close> and the sensor values are \<open>unsigned int\<close>,
  and every comparison between the two widens the 32-bit operand, every assignment of an
  option to a field or to an \<open>unsigned int\<close> parameter truncates it.
\<close>

type_synonym uint = "32 word"
type_synonym ulong = "64 word"

definition ITERATIONS_BEFORE_SWITCH :: ulong where
  "ITERATIONS_BEFORE_SWITCH = 30"

definition PERFORMANCE_STATE_HIGH :: uint where
  "PERFORMANCE_STATE_HIGH = 16"

definition PERFORMANCE_STATE_LOW :: uint where
  "PERFORMANCE_STATE_LOW = 8"

definition TEMPERATURE_THRESHOLD :: ulong where
  "TEMPERATURE_THRESHOLD = 80"

section \<open>The per-GPU record\<close>

record gpuState =
  iterations :: uint
  pstateId :: uint
  managed :: bool
  usingClockControl :: bool
  minMemClock :: uint
  minGpuClock :: uint
  currentMemClock :: uint
  currentGpuClock :: uint

text \<open>The options of \<open>run\<close> that the control code reads, and the global fallback flag.\<close>

record options =
  iterationsBeforeSwitch :: ulong
  performanceStateHigh :: ulong
  performanceStateLow :: ulong
  temperatureThreshold :: ulong
  clockFreqMemHigh :: ulong
  clockFreqGpuHigh :: ulong
  clockFreqMemLow :: ulong
  clockFreqGpuLow :: ulong
  enableClockFallback :: bool

section \<open>The two vendor libraries\<close>

text \<open>
  The answers of NVAPI and NVML for one device during one call of a function of main.c
  (each library function is called at most once per device there). A status other than
  success is \<open>False\<close> or \<open>None\<close>; a clock query that succeeds returns the filled part of
  the buffer, whose length is the returned count.
\<close>

record nv =
  NvAPI_GPU_SetForcePstate :: "uint \<Rightarrow> bool"
  nvmlDeviceGetSupportedMemoryClocks :: "uint list option"
  nvmlDeviceGetSupportedGraphicsClocks :: "uint \<Rightarrow> uint list option"
  nvmlDeviceResetApplicationsClocks :: bool
  nvmlDeviceSetApplicationsClocks :: "uint \<Rightarrow> uint \<Rightarrow> bool"
  nvmlDeviceGetTemperature :: "uint option"
  nvmlDeviceGetUtilizationRates :: "uint option"
  nvmlDeviceGetName :: bool

text \<open>The library calls a function issues, in order, with their arguments.\<close>

datatype hw_call =
    ForcePstate uint
  | SupportedMemoryClocks
  | SupportedGraphicsClocks uint
  | ResetClocks
  | SetClocks uint uint
  | Temperature
  | UtilizationRates
  | DeviceName

datatype error = Errored

section \<open>get\_supported\_clocks\<close>

text \<open>The scan for the lowest entry of a clock buffer, from its first entry on.\<close>

fun lowest_clock :: "uint \<Rightarrow> uint list \<Rightarrow> uint" where
  "lowest_clock lowest [] = lowest"
| "lowest_clock lowest (c # cs) = lowest_clock (if c < lowest then c else lowest) cs"

definition get_supported_clocks :: "nv \<Rightarrow> gpuState \<Rightarrow> bool \<times> gpuState \<times> hw_call list" where
  "get_supported_clocks h state =
     (if \<not> managed state then (True, state, [])
      else case nvmlDeviceGetSupportedMemoryClocks h of
          None \<Rightarrow> (False, state, [SupportedMemoryClocks])
        | Some [] \<Rightarrow> (False, state, [SupportedMemoryClocks])
        | Some (m # ms) \<Rightarrow>
            (let lowestMemClock = lowest_clock m ms;
                 state1 = state\<lparr>minMemClock := lowestMemClock\<rparr>;
                 calls = [SupportedMemoryClocks, SupportedGraphicsClocks lowestMemClock]
             in case nvmlDeviceGetSupportedGraphicsClocks h lowestMemClock of
                 None \<Rightarrow> (False, state1, calls)
               | Some [] \<Rightarrow> (False, state1, calls)
               | Some (g # gs) \<Rightarrow>
                   (True, state1\<lparr>minGpuClock := lowest_clock g gs\<rparr>, calls)))"

section \<open>set\_clocks\<close>

definition set_clocks ::
  "nv \<Rightarrow> gpuState \<Rightarrow> bool \<Rightarrow> ulong \<Rightarrow> ulong \<Rightarrow> ulong \<Rightarrow> ulong \<Rightarrow> bool \<times> gpuState \<times> hw_call list" where
  "set_clocks h state highPerformance memFreqHigh gpuFreqHigh memFreqLow gpuFreqLow =
     (if \<not> managed state then (True, state, [])
      else if highPerformance \<and> memFreqHigh = 0 \<and> gpuFreqHigh = 0 then
        (if nvmlDeviceResetApplicationsClocks h
         then (True, state\<lparr>currentMemClock := 0, currentGpuClock := 0\<rparr>, [ResetClocks])
         else (False, state, [ResetClocks]))
      else
        (let memClock = (if highPerformance then ucast memFreqHigh
                         else ucast (if 0 < memFreqLow then memFreqLow
                                     else ucast (minMemClock state)));
             gpuClock = (if highPerformance then ucast gpuFreqHigh
                         else ucast (if 0 < gpuFreqLow then gpuFreqLow
                                     else ucast (minGpuClock state)))
         in if nvmlDeviceSetApplicationsClocks h memClock gpuClock
            then (True, state\<lparr>currentMemClock := memClock, currentGpuClock := gpuClock\<rparr>,
                  [SetClocks memClock gpuClock])
            else (False, state, [SetClocks memClock gpuClock])))"

section \<open>enter\_pstate\<close>

text \<open>
  The first argument is the global \<open>enableClockFallback\<close>. The two tails of the function
  that reset the counter and store the new performance state are \<open>entered\<close>.
\<close>

definition entered :: "gpuState \<Rightarrow> uint \<Rightarrow> gpuState" where
  "entered state p = state\<lparr>iterations := 0, pstateId := p\<rparr>"

definition enter_pstate ::
  "bool \<Rightarrow> nv \<Rightarrow> gpuState \<Rightarrow> uint \<Rightarrow> ulong \<Rightarrow> ulong \<Rightarrow> ulong \<Rightarrow> ulong
     \<Rightarrow> bool \<times> gpuState \<times> hw_call list" where
  "enter_pstate fallback h state p memFreqHigh gpuFreqHigh memFreqLow gpuFreqLow =
     (if \<not> managed state then (True, state, [])
      else if usingClockControl state then
        (case set_clocks h state (p = PERFORMANCE_STATE_HIGH)
                memFreqHigh gpuFreqHigh memFreqLow gpuFreqLow of
           (False, state1, calls) \<Rightarrow> (False, state1, calls)
         | (True, state1, calls) \<Rightarrow> (True, entered state1 p, calls))
      else if NvAPI_GPU_SetForcePstate h p then (True, entered state p, [ForcePstate p])
      else if fallback then
        (case get_supported_clocks h state of
           (False, state1, calls1) \<Rightarrow> (False, state1, ForcePstate p # calls1)
         | (True, state1, calls1) \<Rightarrow>
             (case set_clocks h (state1\<lparr>usingClockControl := True\<rparr>)
                     (p = PERFORMANCE_STATE_HIGH)
                     memFreqHigh gpuFreqHigh memFreqLow gpuFreqLow of
                (False, state2, calls2) \<Rightarrow> (False, state2, ForcePstate p # calls1 @ calls2)
              | (True, state2, calls2) \<Rightarrow>
                  (True, entered state2 p, ForcePstate p # calls1 @ calls2)))
      else (False, state, [ForcePstate p]))"

text \<open>\<open>enter_pstate\<close> as \<open>run\<close> calls it: with the four clock options, the level truncated
  to the \<open>unsigned int\<close> parameter.\<close>

definition run_enter_pstate ::
  "options \<Rightarrow> nv \<Rightarrow> gpuState \<Rightarrow> ulong \<Rightarrow> bool \<times> gpuState \<times> hw_call list" where
  "run_enter_pstate opts h state level =
     enter_pstate (enableClockFallback opts) h state (ucast level)
       (clockFreqMemHigh opts) (clockFreqGpuHigh opts)
       (clockFreqMemLow opts) (clockFreqGpuLow opts)"

text \<open>A call of \<open>enter_pstate\<close> in \<open>run\<close> followed by \<open>goto errored\<close> when it fails, and by
  \<open>rest\<close> when it succeeds.\<close>

definition or_errored ::
  "bool \<times> gpuState \<times> hw_call list \<Rightarrow> (gpuState \<Rightarrow> gpuState) \<Rightarrow> (error + gpuState) \<times> hw_call list" where
  "or_errored r rest =
     (case r of (False, state1, calls) \<Rightarrow> (Inl Errored, calls)
              | (True, state1, calls) \<Rightarrow> (Inr (rest state1), calls))"

section \<open>The main loop of run, for one device and one iteration\<close>

definition prepend :: "hw_call list \<Rightarrow> 'a \<times> hw_call list \<Rightarrow> 'a \<times> hw_call list" where
  "prepend cs r = (fst r, cs @ snd r)"

definition main_loop_device ::
  "options \<Rightarrow> nv \<Rightarrow> gpuState \<Rightarrow> (error + gpuState) \<times> hw_call list" where
  "main_loop_device opts h state =
     (case nvmlDeviceGetTemperature h of
        None \<Rightarrow> (Inl Errored, [Temperature])
      | Some temperature \<Rightarrow>
          if temperatureThreshold opts < ucast temperature then
            (if ucast (pstateId state) \<noteq> performanceStateLow opts
             then prepend [Temperature]
                    (or_errored (run_enter_pstate opts h state (performanceStateLow opts)) (\<lambda>s. s))
             else (Inr state, [Temperature]))
          else
            (case nvmlDeviceGetUtilizationRates h of
               None \<Rightarrow> (Inl Errored, [Temperature, UtilizationRates])
             | Some gpu \<Rightarrow>
                 if gpu \<noteq> 0 then
                   (if ucast (pstateId state) \<noteq> performanceStateHigh opts
                    then prepend [Temperature, UtilizationRates]
                           (or_errored (run_enter_pstate opts h state (performanceStateHigh opts))
                              (\<lambda>s. s))
                    else (Inr (state\<lparr>iterations := 0\<rparr>), [Temperature, UtilizationRates]))
                 else
                   (if ucast (pstateId state) \<noteq> performanceStateLow opts
                    then
                      (if iterationsBeforeSwitch opts < ucast (iterations state)
                       then prepend [Temperature, UtilizationRates]
                              (or_errored (run_enter_pstate opts h state (performanceStateLow opts))
                                 (\<lambda>s. s\<lparr>iterations := iterations s + 1\<rparr>))
                       else (Inr (state\<lparr>iterations := iterations state + 1\<rparr>),
                             [Temperature, UtilizationRates]))
                    else (Inr state, [Temperature, UtilizationRates]))))"

text \<open>Consecutive iterations of the main loop on one device, one library answer record
  per iteration; the first failure leaves the loop.\<close>

fun main_loop :: "options \<Rightarrow> nv list \<Rightarrow> gpuState \<Rightarrow> error + gpuState" where
  "main_loop opts [] state = Inr state"
| "main_loop opts (h # hs) state =
     (case fst (main_loop_device opts h state) of
        Inl e \<Rightarrow> Inl e
      | Inr state1 \<Rightarrow> main_loop opts hs state1)"

section \<open>The start-up of run, for one device\<close>

text \<open>
  The body of the loop that lists the managed devices (a device name that cannot be read
  jumps to \<open>errored\<close>; with the fallback enabled the supported clocks are queried, and a
  failure of that query is only warned about), and after it the body of the loop that
  switches every device to the low performance state. The count of managed devices and
  the test that it is not zero concern the whole table and are left out. The two loops
  get their own library answers.
\<close>

definition init_device ::
  "options \<Rightarrow> nv \<Rightarrow> gpuState \<Rightarrow> (error + gpuState) \<times> hw_call list" where
  "init_device opts h state =
     (if managed state then
        (if nvmlDeviceGetName h then
           (if enableClockFallback opts then
              (case get_supported_clocks h state of
                 (ok, state1, calls) \<Rightarrow> (Inr state1, DeviceName # calls))
            else (Inr state, [DeviceName]))
         else (Inl Errored, [DeviceName]))
      else (Inr state, []))"

definition startup_device ::
  "options \<Rightarrow> nv \<Rightarrow> nv \<Rightarrow> gpuState \<Rightarrow> (error + gpuState) \<times> hw_call list" where
  "startup_device opts h0 h1 state =
     (case init_device opts h0 state of
        (Inl e, calls) \<Rightarrow> (Inl e, calls)
      | (Inr state1, calls) \<Rightarrow>
          prepend calls
            (or_errored (run_enter_pstate opts h1 state1 (performanceStateLow opts)) (\<lambda>s. s)))"

section \<open>The normal exit of run, for one device\<close>

definition normal_exit_device ::
  "options \<Rightarrow> nv \<Rightarrow> gpuState \<Rightarrow> (error + gpuState) \<times> hw_call list" where
  "normal_exit_device opts h state =
     (if usingClockControl state then (Inr state, [ResetClocks])
      else or_errored
             (enter_pstate (enableClockFallback opts) h state 16
                (clockFreqMemHigh opts) (clockFreqGpuHigh opts)
                (clockFreqMemLow opts) (clockFreqGpuLow opts))
             (\<lambda>s. s))"

section \<open>Sequences of level-set calls on one device\<close>

text \<open>Any number of calls of \<open>enter_pstate\<close> on the same record, each with its own
  arguments and library answers, whatever each call returns.\<close>

fun enter_pstate_calls ::
  "bool \<Rightarrow> (nv \<times> uint \<times> ulong \<times> ulong \<times> ulong \<times> ulong) list \<Rightarrow> gpuState
     \<Rightarrow> gpuState \<times> hw_call list" where
  "enter_pstate_calls fallback [] state = (state, [])"
| "enter_pstate_calls fallback ((h, p, mh, gh, ml, gl) # rs) state =
     (case enter_pstate fallback h state p mh gh ml gl of
        (ok, state1, calls1) \<Rightarrow>
          (case enter_pstate_calls fallback rs state1 of
             (state2, calls2) \<Rightarrow> (state2, calls1 @ calls2)))"

definition is_clock_query :: "hw_call \<Rightarrow> bool" where
  "is_clock_query c =
     (case c of SupportedMemoryClocks \<Rightarrow> True | SupportedGraphicsClocks m \<Rightarrow> True | _ \<Rightarrow> False)"

definition is_force_pstate :: "hw_call \<Rightarrow> bool" where
  "is_force_pstate c = (case c of ForcePstate p \<Rightarrow> True | _ \<Rightarrow> False)"

text \<open>
  The clock call that a level request stands for on the clock path, in the words of the
  specification (section 4.2, step 2), not of the code: for the high level with both
  high clocks zero the reset to automatic clocks, for the high level otherwise the high
  clocks as given, for the low level each low clock if it is not zero and the cached
  minimum otherwise. \<open>clock_call_ok\<close> is the library's answer to such a call.
\<close>

definition spec_clock_call ::
  "bool \<Rightarrow> ulong \<Rightarrow> ulong \<Rightarrow> ulong \<Rightarrow> ulong \<Rightarrow> uint \<Rightarrow> uint \<Rightarrow> hw_call" where
  "spec_clock_call high highMem highCore lowMem lowCore minMem minCore =
     (if high then
        (if highMem = 0 \<and> highCore = 0 then ResetClocks
         else SetClocks (ucast highMem) (ucast highCore))
      else SetClocks (if lowMem = 0 then minMem else ucast lowMem)
                     (if lowCore = 0 then minCore else ucast lowCore))"

definition clock_call_ok :: "nv \<Rightarrow> hw_call \<Rightarrow> bool" where
  "clock_call_ok h c =
     (case c of
        ResetClocks \<Rightarrow> nvmlDeviceResetApplicationsClocks h
      | SetClocks m g \<Rightarrow> nvmlDeviceSetApplicationsClocks h m g
      | _ \<Rightarrow> False)"

section \<open>Sorting the NVAPI handles into NVML order\<close>

text \<open>
  Step 1 reads, for each index below \<open>deviceCount\<close>, the PCI bus of the NVML device and
  then the bus id of the NVAPI device; a read that fails jumps to \<open>errored\<close>. The list
  holds the two answers for each index.
\<close>

fun read_identifiers :: "(uint option \<times> uint option) list \<Rightarrow> error + (uint list \<times> uint list)" where
  "read_identifiers [] = Inr ([], [])"
| "read_identifiers ((nvmlBus, nvapiBus) # rest) =
     (case nvmlBus of
        None \<Rightarrow> Inl Errored
      | Some a \<Rightarrow>
          (case nvapiBus of
             None \<Rightarrow> Inl Errored
           | Some b \<Rightarrow>
               (case read_identifiers rest of
                  Inl e \<Rightarrow> Inl e
                | Inr (nvmlIdentifiers, nvapiIdentifiers) \<Rightarrow>
                    Inr (a # nvmlIdentifiers, b # nvapiIdentifiers))))"

text \<open>The inner loop of step 2: the first \<open>j\<close> whose NVAPI identifier equals the NVML
  identifier, where the loop breaks; \<open>None\<close> when the loop runs to its end.\<close>

fun match_index :: "uint \<Rightarrow> uint list \<Rightarrow> nat option" where
  "match_index x [] = None"
| "match_index x (y # ys) = (if x = y then Some 0 else map_option Suc (match_index x ys))"

text \<open>
  Step 2 for every \<open>i\<close>. \<open>sortedNvapiDevices\<close> is an uninitialised local array: a slot
  is \<open>Some\<close> handle once the loop has stored one, and \<open>None\<close> while it still holds
  whatever the stack held. Step 3 copies the array over \<open>nvapiDevices\<close>.
\<close>

definition sort_nvapi_handles :: "uint list \<Rightarrow> uint list \<Rightarrow> 'h list \<Rightarrow> 'h option list" where
  "sort_nvapi_handles nvmlIdentifiers nvapiIdentifiers nvapiDevices =
     map (\<lambda>x. map_option (\<lambda>j. nvapiDevices ! j) (match_index x nvapiIdentifiers))
       nvmlIdentifiers"

definition reconcile :: "(uint option \<times> uint option) list \<Rightarrow> 'h list \<Rightarrow> error + 'h option list" where
  "reconcile busReads nvapiDevices =
     (case read_identifiers busReads of
        Inl e \<Rightarrow> Inl e
      | Inr (nvmlIdentifiers, nvapiIdentifiers) \<Rightarrow>
          Inr (sort_nvapi_handles nvmlIdentifiers nvapiIdentifiers nvapiDevices))"

section \<open>Marking the managed devices\<close>

text \<open>
  \<open>gpuStates\<close> is the whole static array, so its length is \<open>NVAPI_MAX_PHYSICAL_GPUS\<close>
  (a constant of the NVAPI header); a store past its end is undefined in C and is
  \<open>None\<close> here.
\<close>

definition invalid_id :: "ulong \<Rightarrow> uint \<Rightarrow> bool" where
  "invalid_id gid deviceCount = (gid < 0 \<or> ucast deviceCount < gid)"

fun mark_ids :: "ulong list \<Rightarrow> uint \<Rightarrow> gpuState list \<Rightarrow> gpuState list option" where
  "mark_ids [] deviceCount gpuStates = Some gpuStates"
| "mark_ids (gid # ids) deviceCount gpuStates =
     (if invalid_id gid deviceCount then mark_ids ids deviceCount gpuStates
      else if unat gid < length gpuStates
        then mark_ids ids deviceCount
               (gpuStates[unat gid := (gpuStates ! unat gid)\<lparr>managed := True\<rparr>])
        else None)"

fun mark_all :: "nat \<Rightarrow> gpuState list \<Rightarrow> gpuState list" where
  "mark_all 0 gpuStates = gpuStates"
| "mark_all (Suc n) [] = []"
| "mark_all (Suc n) (state # gpuStates) = state\<lparr>managed := True\<rparr> # mark_all n gpuStates"

definition mark_managed :: "ulong list \<Rightarrow> uint \<Rightarrow> gpuState list \<Rightarrow> gpuState list option" where
  "mark_managed ids deviceCount gpuStates =
     (if ids \<noteq> [] then mark_ids ids deviceCount gpuStates
      else Some (mark_all (unat deviceCount) gpuStates))"

section \<open>Sample inputs\<close>

text \<open>An entry of the static array \<open>gpuStates\<close> before \<open>run\<close> touches it.\<close>

definition zero_state :: gpuState where
  "zero_state = \<lparr>iterations = 0, pstateId = 0, managed = False, usingClockControl = False,
     minMemClock = 0, minGpuClock = 0, currentMemClock = 0, currentGpuClock = 0\<rparr>"

text \<open>The options \<open>run\<close> starts from when the command line gives none.\<close>

definition default_options :: options where
  "default_options = \<lparr>iterationsBeforeSwitch = ITERATIONS_BEFORE_SWITCH,
     performanceStateHigh = ucast PERFORMANCE_STATE_HIGH,
     performanceStateLow = ucast PERFORMANCE_STATE_LOW,
     temperatureThreshold = TEMPERATURE_THRESHOLD,
     clockFreqMemHigh = 0, clockFreqGpuHigh = 0, clockFreqMemLow = 0, clockFreqGpuLow = 0,
     enableClockFallback = True\<rparr>"

text \<open>Libraries on which every call succeeds, with the given sensor readings, and
  libraries that differ only in rejecting every forced performance state.\<close>

definition nv_ok :: "uint \<Rightarrow> uint \<Rightarrow> nv" where
  "nv_ok temp gpu = \<lparr>NvAPI_GPU_SetForcePstate = (\<lambda>p. True),
     nvmlDeviceGetSupportedMemoryClocks = Some [5001, 810, 405],
     nvmlDeviceGetSupportedGraphicsClocks = (\<lambda>m. Some [1500, 210, 300]),
     nvmlDeviceResetApplicationsClocks = True,
     nvmlDeviceSetApplicationsClocks = (\<lambda>m g. True),
     nvmlDeviceGetTemperature = Some temp,
     nvmlDeviceGetUtilizationRates = Some gpu,
     nvmlDeviceGetName = True\<rparr>"

definition nv_no_pstate :: "uint \<Rightarrow> uint \<Rightarrow> nv" where
  "nv_no_pstate temp gpu = (nv_ok temp gpu)\<lparr>NvAPI_GPU_SetForcePstate := (\<lambda>p. False)\<rparr>"

text \<open>A sample of one main-loop iteration on which the device is idle and not above
  the temperature threshold: both reads succeed, the temperature does not exceed the
  threshold and the utilization is zero.\<close>

definition idle_sample :: "options \<Rightarrow> nv \<Rightarrow> bool" where
  "idle_sample opts h =
     ((case nvmlDeviceGetTemperature h of
         None \<Rightarrow> False
       | Some temperature \<Rightarrow> \<not> temperatureThreshold opts < ucast temperature)
      \<and> nvmlDeviceGetUtilizationRates h = Some 0)"

text \<open>A managed device on the performance-state path, in state \<open>p\<close> with counter \<open>n\<close>.\<close>

definition sample_state :: "uint \<Rightarrow> uint \<Rightarrow> gpuState" where
  "sample_state p n = zero_state\<lparr>managed := True, pstateId := p, iterations := n\<rparr>"

section \<open>Unfolding the samples and the control functions\<close>

lemmas sample_defs = sample_state_def zero_state_def default_options_def nv_ok_def
  nv_no_pstate_def ITERATIONS_BEFORE_SWITCH_def PERFORMANCE_STATE_HIGH_def
  PERFORMANCE_STATE_LOW_def TEMPERATURE_THRESHOLD_def

lemmas control_defs = main_loop_device_def run_enter_pstate_def enter_pstate_def
  set_clocks_def get_supported_clocks_def entered_def or_errored_def prepend_def
  normal_exit_device_def init_device_def startup_device_def

section \<open>Widening and truncation between the two integer widths\<close>

lemma unat_widen: "unat (ucast (b :: uint) :: ulong) = unat b"
proof -
  have "unat b < 2 ^ 32" using unsigned_less [of b] by simp
  then have "unat b < 2 ^ 64" by simp
  then show ?thesis by (simp add: unsigned_ucast_eq take_bit_nat_eq_self)
qed

lemma widen_less: "(a :: ulong) < ucast (b :: uint) \<longleftrightarrow> unat a < unat b"
  by (simp add: word_less_nat_alt unat_widen)

lemma widen_narrow: "ucast (ucast (x :: uint) :: ulong) = x"
  by (rule ucast_up_ucast_id) (simp add: is_up)

lemma narrow_widen: "(x :: ulong) \<le> 0xFFFFFFFF \<Longrightarrow> ucast (ucast x :: uint) = x"
proof -
  assume "x \<le> 0xFFFFFFFF"
  then have "unat x < 2 ^ 32" by (simp add: word_le_nat_alt)
  then have "unat (ucast (ucast x :: uint) :: ulong) = unat x"
    by (simp add: unat_widen unsigned_ucast_eq unsigned_take_bit_eq take_bit_nat_eq_self)
  then show ?thesis by (simp add: word_unat_eq_iff)
qed

lemma unat_succ_le: "unat ((x :: uint) + 1) \<le> unat x + 1"
  by (simp add: unat_word_ariths)

lemma unat_of_nat_uint: "n < 2 ^ 32 \<Longrightarrow> unat (of_nat n :: uint) = n"
  by (simp add: unat_of_nat take_bit_nat_eq_self)

lemma widen_eq_narrow: "ucast (x :: uint) = (y :: ulong) \<Longrightarrow> x = ucast y"
  using widen_narrow [of x] by simp

section \<open>What each control function may change and call\<close>

lemma set_clocks_frame:
  assumes "set_clocks h s hp mh gh ml gl = (ok, s', calls)"
  shows "usingClockControl s' = usingClockControl s \<and> managed s' = managed s
       \<and> iterations s' = iterations s \<and> pstateId s' = pstateId s
       \<and> minMemClock s' = minMemClock s \<and> minGpuClock s' = minGpuClock s"
  using assms by (auto simp: set_clocks_def Let_def split: if_splits)

lemma set_clocks_calls:
  assumes "set_clocks h s hp mh gh ml gl = (ok, s', calls)"
  shows "\<forall>c \<in> set calls. \<not> is_force_pstate c \<and> \<not> is_clock_query c"
  using assms
  by (auto simp: set_clocks_def Let_def is_force_pstate_def is_clock_query_def split: if_splits)

lemma set_clocks_is_spec:
  assumes "managed s"
  shows "snd (snd (set_clocks h s high mh gh ml gl))
           = [spec_clock_call high mh gh ml gl (minMemClock s) (minGpuClock s)]
       \<and> fst (set_clocks h s high mh gh ml gl)
           = clock_call_ok h (spec_clock_call high mh gh ml gl (minMemClock s) (minGpuClock s))"
  using assms
  by (auto simp: set_clocks_def spec_clock_call_def clock_call_ok_def Let_def widen_narrow
      word_gt_0)

lemma init_device_queries:
  assumes "managed state" and "enableClockFallback opts" and "nvmlDeviceGetName h0"
  shows "\<exists>calls0. snd (init_device opts h0 state) = DeviceName # SupportedMemoryClocks # calls0"
  using assms
  by (auto simp: init_device_def get_supported_clocks_def Let_def
      split: prod.splits option.splits list.splits)

lemma get_supported_clocks_frame:
  assumes "get_supported_clocks h s = (ok, s', calls)"
  shows "usingClockControl s' = usingClockControl s \<and> managed s' = managed s
       \<and> iterations s' = iterations s \<and> pstateId s' = pstateId s
       \<and> currentMemClock s' = currentMemClock s \<and> currentGpuClock s' = currentGpuClock s"
  using assms
  by (auto simp: get_supported_clocks_def Let_def split: if_splits option.splits list.splits)

lemma get_supported_clocks_success:
  assumes "managed s"
    and "nvmlDeviceGetSupportedMemoryClocks h = Some (m # ms)"
    and "nvmlDeviceGetSupportedGraphicsClocks h (lowest_clock m ms) = Some (g # gs)"
  shows "get_supported_clocks h s =
           (True, s\<lparr>minMemClock := lowest_clock m ms, minGpuClock := lowest_clock g gs\<rparr>,
            [SupportedMemoryClocks, SupportedGraphicsClocks (lowest_clock m ms)])"
  using assms by (simp add: get_supported_clocks_def Let_def)

lemma lowest_clock_Min: "lowest_clock c cs = Min (set (c # cs))"
proof (induction cs arbitrary: c)
  case Nil
  show ?case by simp
next
  case (Cons d ds)
  have "lowest_clock c (d # ds) = Min (set ((if d < c then d else c) # ds))"
    using Cons.IH by simp
  also have "\<dots> = Min (set (c # d # ds))"
    by (cases ds) (auto simp: min_def)
  finally show ?case .
qed

lemma enter_pstate_success:
  assumes "enter_pstate fb h s p mh gh ml gl = (True, s', calls)" and "managed s"
  shows "pstateId s' = p \<and> iterations s' = 0 \<and> managed s'"
  using assms
  by (auto simp: enter_pstate_def entered_def split: if_splits prod.splits bool.splits
      dest!: set_clocks_frame get_supported_clocks_frame)

lemma enter_pstate_failure:
  assumes "enter_pstate fb h s p mh gh ml gl = (False, s', calls)"
  shows "pstateId s' = pstateId s \<and> iterations s' = iterations s"
  using assms
  by (auto simp: enter_pstate_def entered_def split: if_splits prod.splits bool.splits
      dest!: set_clocks_frame get_supported_clocks_frame)

lemma enter_pstate_override:
  assumes "enter_pstate fb h s p mh gh ml gl = (ok, s', calls)" and "usingClockControl s"
  shows "usingClockControl s' \<and> (\<forall>c \<in> set calls. \<not> is_force_pstate c \<and> \<not> is_clock_query c)"
proof (cases "managed s")
  case False
  with assms show ?thesis by (simp add: enter_pstate_def)
next
  case True
  obtain ok1 s1 calls1
    where sc: "set_clocks h s (p = PERFORMANCE_STATE_HIGH) mh gh ml gl = (ok1, s1, calls1)"
    by (cases "set_clocks h s (p = PERFORMANCE_STATE_HIGH) mh gh ml gl") auto
  have "usingClockControl s1" using set_clocks_frame [OF sc] assms(2) by simp
  moreover have "calls = calls1 \<and> (s' = s1 \<or> s' = entered s1 p)"
    using assms True sc by (cases ok1) (auto simp: enter_pstate_def)
  ultimately show ?thesis
    using set_clocks_calls [OF sc] by (auto simp: entered_def)
qed

lemma enter_pstate_calls_override:
  assumes "usingClockControl state"
  shows "usingClockControl (fst (enter_pstate_calls fb rs state))
       \<and> (\<forall>c \<in> set (snd (enter_pstate_calls fb rs state)). \<not> is_force_pstate c \<and> \<not> is_clock_query c)"
  using assms
proof (induction rs arbitrary: state)
  case Nil
  then show ?case by simp
next
  case (Cons r rs)
  obtain h p mh gh ml gl where r: "r = (h, p, mh, gh, ml, gl)" by (cases r) auto
  obtain ok s1 calls1 where e: "enter_pstate fb h state p mh gh ml gl = (ok, s1, calls1)"
    by (cases "enter_pstate fb h state p mh gh ml gl") auto
  have s1: "usingClockControl s1"
    and c1: "\<forall>c \<in> set calls1. \<not> is_force_pstate c \<and> \<not> is_clock_query c"
    using enter_pstate_override [OF e Cons.prems] by simp_all
  show ?case
    using Cons.IH [OF s1] c1 by (auto simp: r e split: prod.splits)
qed

lemma set_clocks_ignores_utilization:
  "set_clocks (h\<lparr>nvmlDeviceGetUtilizationRates := u\<rparr>) state hp mh gh ml gl
     = set_clocks h state hp mh gh ml gl"
  by (simp add: set_clocks_def)

lemma get_supported_clocks_ignores_utilization:
  "get_supported_clocks (h\<lparr>nvmlDeviceGetUtilizationRates := u\<rparr>) state
     = get_supported_clocks h state"
  by (simp add: get_supported_clocks_def Let_def split: option.splits list.splits)

lemma enter_pstate_ignores_utilization:
  "enter_pstate fb (h\<lparr>nvmlDeviceGetUtilizationRates := u\<rparr>) state p mh gh ml gl
     = enter_pstate fb h state p mh gh ml gl"
  by (simp add: enter_pstate_def set_clocks_ignores_utilization
      get_supported_clocks_ignores_utilization split: prod.splits bool.splits)

section \<open>Idle iterations of the main loop\<close>

lemma main_loop_append:
  "main_loop opts (xs @ ys) state =
     (case main_loop opts xs state of Inl e \<Rightarrow> Inl e | Inr state1 \<Rightarrow> main_loop opts ys state1)"
  by (induction xs arbitrary: state) (auto split: sum.splits)

lemma idle_tick_counts:
  assumes "idle_sample opts h"
    and "ucast (pstateId state) \<noteq> performanceStateLow opts"
    and "unat (iterations state) \<le> unat (iterationsBeforeSwitch opts)"
  shows "main_loop_device opts h state =
           (Inr (state\<lparr>iterations := iterations state + 1\<rparr>), [Temperature, UtilizationRates])"
  using assms
  by (auto simp: idle_sample_def main_loop_device_def widen_less split: option.splits)

lemma idle_tick_switches:
  assumes "idle_sample opts h"
    and "ucast (pstateId state) \<noteq> performanceStateLow opts"
    and "unat (iterationsBeforeSwitch opts) < unat (iterations state)"
    and "run_enter_pstate opts h state (performanceStateLow opts) = (True, state1, calls)"
  shows "main_loop_device opts h state =
           (Inr (state1\<lparr>iterations := iterations state1 + 1\<rparr>),
            [Temperature, UtilizationRates] @ calls)"
  using assms
  by (auto simp: idle_sample_def main_loop_device_def widen_less or_errored_def prepend_def
      split: option.splits)

lemma idle_ticks_count:
  assumes "\<forall>h \<in> set hs. idle_sample opts h"
    and "ucast (pstateId state) \<noteq> performanceStateLow opts"
    and "unat (iterations state) + length hs \<le> unat (iterationsBeforeSwitch opts) + 1"
  shows "main_loop opts hs state = Inr (state\<lparr>iterations := iterations state + of_nat (length hs)\<rparr>)"
  using assms
proof (induction hs arbitrary: state)
  case Nil
  then show ?case by simp
next
  case (Cons h hs)
  let ?s = "state\<lparr>iterations := iterations state + 1\<rparr>"
  have le: "unat (iterations state) \<le> unat (iterationsBeforeSwitch opts)"
    using Cons.prems(3) by simp
  have step: "main_loop_device opts h state = (Inr ?s, [Temperature, UtilizationRates])"
    using idle_tick_counts [of opts h state] Cons.prems(1,2) le by simp
  have "unat (iterations state + 1) \<le> unat (iterations state) + 1"
    by (rule unat_succ_le)
  then have bound: "unat (iterations ?s) + length hs \<le> unat (iterationsBeforeSwitch opts) + 1"
    using Cons.prems(3) by simp
  have "main_loop opts hs ?s = Inr (?s\<lparr>iterations := iterations ?s + of_nat (length hs)\<rparr>)"
    using Cons.IH [of ?s] Cons.prems(1,2) bound by simp
  then show ?case
    using step by (simp add: add.assoc)
qed

section \<open>Matching the two enumerations\<close>

lemma read_identifiers_all_read:
  "length as = length bs \<Longrightarrow>
     read_identifiers (zip (map Some as) (map Some bs)) = Inr (as, bs)"
  by (induction as bs rule: list_induct2) simp_all

lemma match_index_None: "x \<notin> set ys \<Longrightarrow> match_index x ys = None"
  by (induction ys) auto

lemma match_index_Some:
  "x \<in> set ys \<Longrightarrow> \<exists>j. match_index x ys = Some j \<and> j < length ys \<and> ys ! j = x"
  by (induction ys) auto

lemma unmatched_slot_is_unwritten:
  assumes "length nvmlIds = length nvapiIds"
    and "i < length nvmlIds"
    and "nvmlIds ! i \<notin> set nvapiIds"
  shows "\<exists>slots. reconcile (zip (map Some nvmlIds) (map Some nvapiIds)) nvapiDevices = Inr slots
           \<and> slots ! i = None"
  using assms
  by (simp add: reconcile_def read_identifiers_all_read sort_nvapi_handles_def match_index_None)

section \<open>Hysteresis\<close>

text \<open>
  C1, as the specification states it, fails: with the default threshold of 30, a managed
  device in state 16 with counter 0 that is idle and cool on every iteration is still in
  state 16 after the 31st iteration, with counter 31, and is in the low state 8 only
  after the 32nd. The loop compares the counter with the threshold before it increments
  it.
\<close>

theorem hysteresis_still_high_after_tick_31:
  "iterationsBeforeSwitch default_options = 30
   \<and> main_loop default_options (replicate 31 (nv_ok 50 0)) (sample_state 16 0)
       = Inr (sample_state 16 31)
   \<and> main_loop default_options (replicate 32 (nv_ok 50 0)) (sample_state 16 0)
       = Inr (sample_state 8 1)"
proof -
  have "iterationsBeforeSwitch default_options = 30"
    by (simp add: sample_defs)
  moreover have "main_loop default_options (replicate 31 (nv_ok 50 0)) (sample_state 16 0)
       = Inr (sample_state 16 31)"
    by code_simp
  moreover have "main_loop default_options (replicate 32 (nv_ok 50 0)) (sample_state 16 0)
       = Inr (sample_state 8 1)"
    by code_simp
  ultimately show ?thesis by simp
qed

text \<open>
  C1, amended. Let a managed device that is not in the low state have counter 0, let the
  threshold \<open>iterationsBeforeSwitch\<close> be below \<open>2^32 - 1\<close>, and let every iteration be
  idle and not above the temperature threshold. Then each of the first threshold + 1
  iterations only increments the counter: after \<open>n\<close> of them the record is unchanged but
  for the counter, which is \<open>n\<close>. The next iteration, number threshold + 2, finds the
  counter above the threshold and calls \<open>enter_pstate\<close> with the low state; when that
  call succeeds the device is in the low state after it. With threshold 30 this is
  iteration 32.
\<close>

theorem hysteresis_switch_tick:
  assumes "managed state"
    and "ucast (pstateId state) \<noteq> performanceStateLow opts"
    and "iterations state = 0"
    and "unat (iterationsBeforeSwitch opts) < 2 ^ 32 - 1"
    and "\<forall>h \<in> set hs. idle_sample opts h"
    and "length hs = unat (iterationsBeforeSwitch opts) + 1"
    and "idle_sample opts h"
    and "fst (run_enter_pstate opts h (state\<lparr>iterations := of_nat (length hs)\<rparr>)
               (performanceStateLow opts))"
  shows "(\<forall>n \<le> length hs.
            main_loop opts (take n hs) state = Inr (state\<lparr>iterations := of_nat n\<rparr>))
       \<and> (\<exists>state1. main_loop opts (hs @ [h]) state = Inr state1
              \<and> pstateId state1 = ucast (performanceStateLow opts))"
proof -
  have prefix: "main_loop opts (take n hs) state = Inr (state\<lparr>iterations := of_nat n\<rparr>)"
    if "n \<le> length hs" for n
  proof -
    have "\<forall>h \<in> set (take n hs). idle_sample opts h"
      using assms(5) by (auto dest: in_set_takeD)
    moreover have "unat (iterations state) + length (take n hs)
                   \<le> unat (iterationsBeforeSwitch opts) + 1"
      using that assms(3,6) by simp
    ultimately show ?thesis
      using idle_ticks_count [of "take n hs" opts state] assms(2,3) that by (simp add: min_def)
  qed
  let ?s = "state\<lparr>iterations := of_nat (length hs)\<rparr>"
  have whole: "main_loop opts hs state = Inr ?s"
    using prefix [of "length hs"] by simp
  obtain ok state1 calls
    where e: "run_enter_pstate opts h ?s (performanceStateLow opts) = (ok, state1, calls)"
    by (cases "run_enter_pstate opts h ?s (performanceStateLow opts)") auto
  have ok: "ok" using assms(8) e by simp
  have low: "pstateId state1 = ucast (performanceStateLow opts)"
    using enter_pstate_success [of "enableClockFallback opts" h ?s] e ok assms(1)
    by (simp add: run_enter_pstate_def)
  have over: "unat (iterationsBeforeSwitch opts) < unat (iterations ?s)"
    using unat_of_nat_uint [of "length hs"] assms(4,6) by simp
  have "main_loop_device opts h ?s =
          (Inr (state1\<lparr>iterations := iterations state1 + 1\<rparr>),
           [Temperature, UtilizationRates] @ calls)"
    using idle_tick_switches [of opts h ?s state1 calls] assms(2,7) over e ok by simp
  then have "main_loop opts (hs @ [h]) state = Inr (state1\<lparr>iterations := iterations state1 + 1\<rparr>)"
    using whole by (simp add: main_loop_append)
  then show ?thesis using prefix low by simp
qed

theorem hysteresis_switch_tick_witness:
  "managed (sample_state 16 0)
   \<and> ucast (pstateId (sample_state 16 0)) \<noteq> performanceStateLow default_options
   \<and> iterations (sample_state 16 0) = 0
   \<and> unat (iterationsBeforeSwitch default_options) < 2 ^ 32 - 1
   \<and> list_all (idle_sample default_options) (replicate 31 (nv_ok 50 0))
   \<and> length (replicate 31 (nv_ok 50 0)) = unat (iterationsBeforeSwitch default_options) + 1
   \<and> idle_sample default_options (nv_ok 50 0)
   \<and> fst (run_enter_pstate default_options (nv_ok 50 0)
            ((sample_state 16 0)\<lparr>iterations := of_nat (length (replicate 31 (nv_ok 50 0)))\<rparr>)
            (performanceStateLow default_options))
   \<and> main_loop default_options (take 31 (replicate 31 (nv_ok 50 0))) (sample_state 16 0)
       = Inr ((sample_state 16 0)\<lparr>iterations := of_nat 31\<rparr>)
   \<and> (\<exists>state1.
         main_loop default_options (replicate 31 (nv_ok 50 0) @ [nv_ok 50 0]) (sample_state 16 0)
           = Inr state1
         \<and> pstateId state1 = ucast (performanceStateLow default_options))"
proof -
  have h1: "managed (sample_state 16 0)" by (simp add: sample_defs)
  have h2: "ucast (pstateId (sample_state 16 0)) \<noteq> performanceStateLow default_options"
    by (simp add: sample_defs)
  have h3: "iterations (sample_state 16 0) = 0" by (simp add: sample_defs)
  have h4: "unat (iterationsBeforeSwitch default_options) < 2 ^ 32 - 1"
    by (simp add: sample_defs)
  have h7: "idle_sample default_options (nv_ok 50 0)"
    by (simp add: idle_sample_def sample_defs)
  have h5: "\<forall>h \<in> set (replicate 31 (nv_ok 50 0)). idle_sample default_options h"
    using h7 by simp
  have h5': "list_all (idle_sample default_options) (replicate 31 (nv_ok 50 0))"
    using h5 by (simp only: list_all_iff)
  have h6: "length (replicate 31 (nv_ok 50 0)) = unat (iterationsBeforeSwitch default_options) + 1"
    by (simp add: sample_defs)
  have h8: "fst (run_enter_pstate default_options (nv_ok 50 0)
            ((sample_state 16 0)\<lparr>iterations := of_nat (length (replicate 31 (nv_ok 50 0)))\<rparr>)
            (performanceStateLow default_options))"
    by (simp add: sample_defs control_defs)
  note t = hysteresis_switch_tick [OF h1 h2 h3 h4 h5 h6 h7 h8]
  have p: "main_loop default_options (take 31 (replicate 31 (nv_ok 50 0))) (sample_state 16 0)
       = Inr ((sample_state 16 0)\<lparr>iterations := of_nat 31\<rparr>)"
    using t [THEN conjunct1, rule_format, of 31] by simp
  show ?thesis
    by (intro conjI h1 h2 h3 h4 h5' h6 h7 h8 p t [THEN conjunct2])
qed

section \<open>The temperature threshold\<close>

text \<open>
  C3, as the specification states it, fails: with the fallback disabled, threshold 80 and
  temperature 85, a managed device in state 16 whose forced performance state is
  rejected is not in the low state at the end of the iteration. \<open>enter_pstate\<close> returns
  false with the record still in state 16 and the loop is left through \<open>errored\<close>.
\<close>

theorem hot_device_stays_high_when_level_set_fails:
  "temperatureThreshold (default_options\<lparr>enableClockFallback := False\<rparr>) = 80
   \<and> nvmlDeviceGetTemperature (nv_no_pstate 85 0) = Some 85
   \<and> managed (sample_state 16 5)
   \<and> main_loop_device (default_options\<lparr>enableClockFallback := False\<rparr>) (nv_no_pstate 85 0)
        (sample_state 16 5)
      = (Inl Errored, [Temperature, ForcePstate 8])
   \<and> run_enter_pstate (default_options\<lparr>enableClockFallback := False\<rparr>) (nv_no_pstate 85 0)
        (sample_state 16 5) (performanceStateLow default_options)
      = (False, sample_state 16 5, [ForcePstate 8])"
  by (simp add: sample_defs control_defs)

text \<open>
  C3, amended. On an iteration of the main loop for a managed device whose temperature
  read exceeds the threshold, whatever the state, the counter and the utilization: when
  the device is already in the low state, or the \<open>enter_pstate\<close> call for the low state
  succeeds, the iteration goes through and the device is in the low state after it (the
  stored state is the low option truncated to \<open>unsigned int\<close>, and equals the option
  itself when that fits 32 bits); otherwise the loop is left through \<open>errored\<close> and the
  failed call leaves the stored state as it was. In both cases the utilization is not
  read, and neither the utilization answer nor the hysteresis threshold has any
  influence on the outcome.
\<close>

theorem thermal_ceiling_forces_low:
  assumes "managed state"
    and "nvmlDeviceGetTemperature h = Some t"
    and "temperatureThreshold opts < ucast t"
  shows "(if ucast (pstateId state) = performanceStateLow opts
            \<or> fst (run_enter_pstate opts h state (performanceStateLow opts))
          then \<exists>state1. fst (main_loop_device opts h state) = Inr state1
                 \<and> pstateId state1 = ucast (performanceStateLow opts)
                 \<and> (performanceStateLow opts \<le> 0xFFFFFFFF
                      \<longrightarrow> ucast (pstateId state1) = performanceStateLow opts)
          else fst (main_loop_device opts h state) = Inl Errored
               \<and> pstateId (fst (snd (run_enter_pstate opts h state (performanceStateLow opts))))
                   = pstateId state)
       \<and> UtilizationRates \<notin> set (snd (main_loop_device opts h state))
       \<and> main_loop_device (opts\<lparr>iterationsBeforeSwitch := n\<rparr>)
            (h\<lparr>nvmlDeviceGetUtilizationRates := u\<rparr>) state
          = main_loop_device opts h state"
proof (cases "ucast (pstateId state) = performanceStateLow opts")
  case True
  then have "pstateId state = ucast (performanceStateLow opts)"
    by (rule widen_eq_narrow)
  then show ?thesis
    using assms True by (simp add: main_loop_device_def run_enter_pstate_def)
next
  case False
  obtain ok state1 calls
    where e: "run_enter_pstate opts h state (performanceStateLow opts) = (ok, state1, calls)"
    by (cases "run_enter_pstate opts h state (performanceStateLow opts)") auto
  have calls: "\<forall>c \<in> set calls. c \<noteq> UtilizationRates"
    using e
    by (auto simp: run_enter_pstate_def enter_pstate_def get_supported_clocks_def
        set_clocks_def Let_def
        split: if_splits prod.splits bool.splits option.splits list.splits)
  have same: "run_enter_pstate (opts\<lparr>iterationsBeforeSwitch := n\<rparr>)
                (h\<lparr>nvmlDeviceGetUtilizationRates := u\<rparr>) state (performanceStateLow opts)
              = run_enter_pstate opts h state (performanceStateLow opts)"
    by (simp add: run_enter_pstate_def enter_pstate_ignores_utilization)
  have run: "main_loop_device opts h state =
               (if ok then Inr state1 else Inl Errored, Temperature # calls)"
    using assms False e by (cases ok) (simp_all add: main_loop_device_def or_errored_def prepend_def)
  have run': "main_loop_device (opts\<lparr>iterationsBeforeSwitch := n\<rparr>)
            (h\<lparr>nvmlDeviceGetUtilizationRates := u\<rparr>) state =
               (if ok then Inr state1 else Inl Errored, Temperature # calls)"
    using assms False e same
    by (cases ok) (simp_all add: main_loop_device_def or_errored_def prepend_def)
  show ?thesis
  proof (cases ok)
    case True
    have "pstateId state1 = ucast (performanceStateLow opts)"
      using enter_pstate_success [of "enableClockFallback opts" h state] e True assms(1)
      by (simp add: run_enter_pstate_def)
    then show ?thesis
      using run run' True calls e by (auto simp: narrow_widen)
  next
    case no: False
    have "pstateId state1 = pstateId state"
      using enter_pstate_failure [of "enableClockFallback opts" h state] e no
      by (simp add: run_enter_pstate_def)
    then show ?thesis using run run' e calls no False by auto
  qed
qed

theorem thermal_ceiling_forces_low_witness:
  "managed (sample_state 16 5)
   \<and> nvmlDeviceGetTemperature (nv_ok 85 7) = Some 85
   \<and> temperatureThreshold default_options < ucast (85 :: uint)
   \<and> fst (run_enter_pstate default_options (nv_ok 85 7) (sample_state 16 5)
            (performanceStateLow default_options))
   \<and> fst (main_loop_device default_options (nv_ok 85 7) (sample_state 16 5))
       = Inr (sample_state 8 0)
   \<and> pstateId (sample_state 8 0) = ucast (performanceStateLow default_options)
   \<and> UtilizationRates \<notin> set (snd (main_loop_device default_options (nv_ok 85 7)
                                      (sample_state 16 5)))
   \<and> main_loop_device (default_options\<lparr>iterationsBeforeSwitch := 0\<rparr>)
        ((nv_ok 85 7)\<lparr>nvmlDeviceGetUtilizationRates := Some 0\<rparr>) (sample_state 16 5)
      = main_loop_device default_options (nv_ok 85 7) (sample_state 16 5)"
proof -
  have h1: "managed (sample_state 16 5)" by (simp add: sample_defs)
  have h2: "nvmlDeviceGetTemperature (nv_ok 85 7) = Some 85" by (simp add: sample_defs)
  have h3: "temperatureThreshold default_options < ucast (85 :: uint)"
    by (simp add: sample_defs)
  have ok: "fst (run_enter_pstate default_options (nv_ok 85 7) (sample_state 16 5)
            (performanceStateLow default_options))"
    by (simp add: sample_defs control_defs)
  have r: "fst (main_loop_device default_options (nv_ok 85 7) (sample_state 16 5))
       = Inr (sample_state 8 0)"
    by (simp add: sample_defs control_defs)
  note t = thermal_ceiling_forces_low [OF h1 h2 h3, of 0 "Some 0"]
  have low: "pstateId (sample_state 8 0) = ucast (performanceStateLow default_options)"
    using t [THEN conjunct1] ok r by simp
  show ?thesis
    by (intro conjI h1 h2 h3 ok r low t [THEN conjunct2, THEN conjunct1]
        t [THEN conjunct2, THEN conjunct2])
qed

text \<open>
  C6, as the specification states it, fails: with threshold 80 and temperature 85, a
  managed device in state 16 with counter 5 is forced to state 8 and its counter is 0
  afterwards, not 5.
\<close>

theorem thermal_force_changes_counter:
  "temperatureThreshold default_options = 80
   \<and> nvmlDeviceGetTemperature (nv_ok 85 0) = Some 85
   \<and> iterations (sample_state 16 5) = 5
   \<and> fst (main_loop_device default_options (nv_ok 85 0) (sample_state 16 5))
       = Inr (sample_state 8 0)
   \<and> iterations (sample_state 8 0) = 0"
  by (simp add: sample_defs control_defs)

text \<open>
  C6, amended. When the temperature threshold forces a managed device that is not in the
  low state into it and the iteration goes through, the counter is 0 afterwards:
  \<open>enter_pstate\<close> resets it together with the state.
\<close>

theorem thermal_force_resets_counter:
  assumes "managed state"
    and "nvmlDeviceGetTemperature h = Some t"
    and "temperatureThreshold opts < ucast t"
    and "ucast (pstateId state) \<noteq> performanceStateLow opts"
    and "fst (main_loop_device opts h state) = Inr state1"
  shows "iterations state1 = 0 \<and> pstateId state1 = ucast (performanceStateLow opts)"
proof -
  obtain ok state2 calls
    where e: "run_enter_pstate opts h state (performanceStateLow opts) = (ok, state2, calls)"
    by (cases "run_enter_pstate opts h state (performanceStateLow opts)") auto
  have "ok \<and> state2 = state1"
    using assms e by (cases ok) (simp_all add: main_loop_device_def or_errored_def prepend_def)
  then show ?thesis
    using enter_pstate_success [of "enableClockFallback opts" h state] e assms(1)
    by (simp add: run_enter_pstate_def)
qed

theorem thermal_force_resets_counter_witness:
  "managed (sample_state 16 5)
   \<and> nvmlDeviceGetTemperature (nv_ok 85 7) = Some 85
   \<and> temperatureThreshold default_options < ucast (85 :: uint)
   \<and> ucast (pstateId (sample_state 16 5)) \<noteq> performanceStateLow default_options
   \<and> fst (main_loop_device default_options (nv_ok 85 7) (sample_state 16 5))
       = Inr (sample_state 8 0)
   \<and> iterations (sample_state 8 0) = 0
   \<and> pstateId (sample_state 8 0) = ucast (performanceStateLow default_options)"
proof -
  have h1: "managed (sample_state 16 5)" by (simp add: sample_defs)
  have h2: "nvmlDeviceGetTemperature (nv_ok 85 7) = Some 85" by (simp add: sample_defs)
  have h3: "temperatureThreshold default_options < ucast (85 :: uint)"
    by (simp add: sample_defs)
  have h4: "ucast (pstateId (sample_state 16 5)) \<noteq> performanceStateLow default_options"
    by (simp add: sample_defs)
  have h5: "fst (main_loop_device default_options (nv_ok 85 7) (sample_state 16 5))
       = Inr (sample_state 8 0)"
    by (simp add: sample_defs control_defs)
  note t = thermal_force_resets_counter [OF h1 h2 h3 h4 h5]
  show ?thesis
    by (intro conjI h1 h2 h3 h4 h5 t [THEN conjunct1] t [THEN conjunct2])
qed

section \<open>The control path\<close>

text \<open>
  C4. The flag \<open>usingClockControl\<close> is only ever set: from a record on which it is set,
  any sequence of \<open>enter_pstate\<close> calls, with any levels, clock arguments, library
  answers and fallback setting, ends with the flag still set, and none of the calls it
  issues is \<open>NvAPI_GPU_SetForcePstate\<close> (nor a query of the supported clocks). Since the
  flag cannot go back, a device changes from the performance-state path to the clock
  path at most once.
\<close>

theorem override_is_permanent:
  assumes "usingClockControl state"
  shows "usingClockControl (fst (enter_pstate_calls fallback rs state))
       \<and> (\<forall>c \<in> set (snd (enter_pstate_calls fallback rs state)).
             \<not> is_force_pstate c \<and> \<not> is_clock_query c)"
  using assms by (rule enter_pstate_calls_override)

theorem override_is_permanent_witness:
  "usingClockControl (zero_state\<lparr>managed := True, usingClockControl := True\<rparr>)
   \<and> enter_pstate_calls True
        [(nv_ok 50 0, 16, 0, 0, 0, 0), (nv_ok 50 0, 8, 0, 0, 700, 300)]
        (zero_state\<lparr>managed := True, usingClockControl := True\<rparr>)
      = (zero_state\<lparr>managed := True, usingClockControl := True, pstateId := 8,
           currentMemClock := 700, currentGpuClock := 300\<rparr>,
         [ResetClocks, SetClocks 700 300])"
proof -
  have flag: "usingClockControl (zero_state\<lparr>managed := True, usingClockControl := True\<rparr>)"
    by simp
  have run: "enter_pstate_calls True
        [(nv_ok 50 0, 16, 0, 0, 0, 0), (nv_ok 50 0, 8, 0, 0, 700, 300)]
        (zero_state\<lparr>managed := True, usingClockControl := True\<rparr>)
      = (zero_state\<lparr>managed := True, usingClockControl := True, pstateId := 8,
           currentMemClock := 700, currentGpuClock := 300\<rparr>,
         [ResetClocks, SetClocks 700 300])"
    by (simp add: enter_pstate_def set_clocks_def entered_def zero_state_def nv_ok_def
        PERFORMANCE_STATE_HIGH_def Let_def)
  show ?thesis
    using flag run
      override_is_permanent [OF flag, of True
        "[(nv_ok 50 0, 16, 0, 0, 0, 0), (nv_ok 50 0, 8, 0, 0, 700, 300)]"]
    by simp
qed

text \<open>
  C5, as the specification states it, fails in three ways. When the query of the
  supported memory clocks fails, \<open>enter_pstate\<close> returns false after the rejected forced
  state and that one query: the flag \<open>usingClockControl\<close> is not set and no clock call is
  made. In a run with the fallback enabled the clocks are queried at start-up and again
  in the first failing request, so the start-up of one device issues four clock queries.
  And a request for a high state configured as 12, with high clocks 5001 and 1500, sets
  the minimum clocks 405 and 210, since \<open>enter_pstate\<close> takes a request as high only when
  its state is 16.
\<close>

theorem first_failure_without_fallback_switch:
  "enter_pstate True ((nv_no_pstate 50 0)\<lparr>nvmlDeviceGetSupportedMemoryClocks := None\<rparr>)
       (sample_state 16 7) 8 0 0 0 0
     = (False, sample_state 16 7, [ForcePstate 8, SupportedMemoryClocks])
   \<and> \<not> usingClockControl (sample_state 16 7)
   \<and> snd (startup_device default_options (nv_no_pstate 50 0) (nv_no_pstate 50 0)
           (sample_state 0 0))
      = [DeviceName, SupportedMemoryClocks, SupportedGraphicsClocks 405,
         ForcePstate 8, SupportedMemoryClocks, SupportedGraphicsClocks 405, SetClocks 405 210]
   \<and> performanceStateHigh (default_options\<lparr>performanceStateHigh := 12,
          clockFreqMemHigh := 5001, clockFreqGpuHigh := 1500\<rparr>) = 12
   \<and> snd (snd (run_enter_pstate
          (default_options\<lparr>performanceStateHigh := 12,
             clockFreqMemHigh := 5001, clockFreqGpuHigh := 1500\<rparr>)
          (nv_no_pstate 50 9) (sample_state 8 0) 12))
      = [ForcePstate 12, SupportedMemoryClocks, SupportedGraphicsClocks 405, SetClocks 405 210]"
  by (simp add: sample_defs control_defs Let_def)

text \<open>
  C5, amended. Let a managed device be on the performance-state path, with the fallback
  enabled, let \<open>NvAPI_GPU_SetForcePstate\<close> fail while both clock queries return a
  non-empty buffer, and let the request be for the high level exactly when its state is
  16. The start-up of such a device has already queried the supported clocks. The failing
  \<open>enter_pstate\<close> call then issues, after the rejected forced state, one query of the
  supported memory clocks, one of the supported graphics clocks, and the one clock call
  that the specification gives for the requested level (\<open>spec_clock_call\<close>, with the
  minima just read); it stores the lowest entry of each buffer in the record and sets
  \<open>usingClockControl\<close>; it returns what the clock call returns, and when that is true the
  requested state is stored. The next \<open>enter_pstate\<close> call on the record, with any
  arguments and answers, issues no clock query and no forced performance state, and
  keeps the stored minimum clocks.
\<close>

theorem first_failure_falls_back:
  assumes "managed state" and "\<not> usingClockControl state"
    and "\<not> NvAPI_GPU_SetForcePstate h p"
    and "nvmlDeviceGetSupportedMemoryClocks h = Some (m # ms)"
    and "nvmlDeviceGetSupportedGraphicsClocks h (lowest_clock m ms) = Some (g # gs)"
    and "high \<longleftrightarrow> p = PERFORMANCE_STATE_HIGH"
    and "enter_pstate True h state p mh gh ml gl = (ok, state1, calls1)"
    and "enter_pstate fallback2 h2 state1 p2 mh2 gh2 ml2 gl2 = (ok2, state2, calls2)"
    and "enableClockFallback opts" and "nvmlDeviceGetName h0"
  shows "(\<exists>calls0. snd (init_device opts h0 state) = DeviceName # SupportedMemoryClocks # calls0)
       \<and> calls1 = [ForcePstate p, SupportedMemoryClocks,
                    SupportedGraphicsClocks (Min (set (m # ms))),
                    spec_clock_call high mh gh ml gl (Min (set (m # ms))) (Min (set (g # gs)))]
       \<and> filter is_clock_query calls1 =
           [SupportedMemoryClocks, SupportedGraphicsClocks (Min (set (m # ms)))]
       \<and> minMemClock state1 = Min (set (m # ms)) \<and> minGpuClock state1 = Min (set (g # gs))
       \<and> usingClockControl state1
       \<and> ok = clock_call_ok h
                 (spec_clock_call high mh gh ml gl (Min (set (m # ms))) (Min (set (g # gs))))
       \<and> (ok \<longrightarrow> pstateId state1 = p)
       \<and> filter is_clock_query calls2 = [] \<and> filter is_force_pstate calls2 = []
       \<and> minMemClock state2 = minMemClock state1 \<and> minGpuClock state2 = minGpuClock state1"
proof -
  define sq where "sq = state\<lparr>minMemClock := lowest_clock m ms,
                          minGpuClock := lowest_clock g gs, usingClockControl := True\<rparr>"
  let ?c = "spec_clock_call high mh gh ml gl (Min (set (m # ms))) (Min (set (g # gs)))"
  obtain ok' s' calls'
    where sc: "set_clocks h sq (p = PERFORMANCE_STATE_HIGH) mh gh ml gl = (ok', s', calls')"
    by (cases "set_clocks h sq (p = PERFORMANCE_STATE_HIGH) mh gh ml gl") auto
  have msq: "managed sq" using assms(1) by (simp add: sq_def)
  have c: "calls' = [?c] \<and> ok' = clock_call_ok h ?c"
    using set_clocks_is_spec [OF msq, of h "p = PERFORMANCE_STATE_HIGH" mh gh ml gl] sc assms(6)
    by (simp add: sq_def lowest_clock_Min)
  have fr: "usingClockControl s' \<and> minMemClock s' = lowest_clock m ms
          \<and> minGpuClock s' = lowest_clock g gs"
    using set_clocks_frame [OF sc] by (simp add: sq_def)
  have e: "ok = ok' \<and> calls1 = [ForcePstate p, SupportedMemoryClocks,
                          SupportedGraphicsClocks (lowest_clock m ms), ?c]
           \<and> (state1 = s' \<or> state1 = entered s' p) \<and> (ok \<longrightarrow> state1 = entered s' p)"
    using assms(1-3,7) get_supported_clocks_success [OF assms(1,4,5)] sc c
    by (cases ok') (auto simp: enter_pstate_def sq_def)
  have q0: "\<exists>calls0. snd (init_device opts h0 state) = DeviceName # SupportedMemoryClocks # calls0"
    using init_device_queries [OF assms(1,9,10)] .
  have q1: "calls1 = [ForcePstate p, SupportedMemoryClocks,
                    SupportedGraphicsClocks (Min (set (m # ms))), ?c]"
    using e by (simp add: lowest_clock_Min)
  have nq: "\<not> is_clock_query ?c"
    by (simp add: spec_clock_call_def is_clock_query_def)
  have q1': "filter is_clock_query calls1 =
           [SupportedMemoryClocks, SupportedGraphicsClocks (Min (set (m # ms)))]"
    using nq by (simp add: q1 is_clock_query_def)
  have q2: "minMemClock state1 = Min (set (m # ms)) \<and> minGpuClock state1 = Min (set (g # gs))"
    using e fr by (auto simp: entered_def lowest_clock_Min)
  have u1: "usingClockControl state1"
    using e fr by (auto simp: entered_def)
  have q3: "ok = clock_call_ok h ?c" using e c by simp
  have q4: "ok \<longrightarrow> pstateId state1 = p"
    using e by (auto simp: entered_def)
  have q5: "filter is_clock_query calls2 = [] \<and> filter is_force_pstate calls2 = []"
    using enter_pstate_override [OF assms(8) u1] by (simp add: filter_empty_conv)
  have q6: "minMemClock state2 = minMemClock state1 \<and> minGpuClock state2 = minGpuClock state1"
    using assms(8) u1
    by (auto simp: enter_pstate_def entered_def split: if_splits prod.splits bool.splits
        dest!: set_clocks_frame)
  show ?thesis
    using q0 q1 q1' q2 u1 q3 q4 q5 q6 by (intro conjI) simp_all
qed

theorem first_failure_falls_back_witness:
  "managed (sample_state 0 0) \<and> \<not> usingClockControl (sample_state 0 0)
   \<and> \<not> NvAPI_GPU_SetForcePstate (nv_no_pstate 50 0) 8
   \<and> nvmlDeviceGetSupportedMemoryClocks (nv_no_pstate 50 0) = Some (5001 # [810, 405])
   \<and> nvmlDeviceGetSupportedGraphicsClocks (nv_no_pstate 50 0) (lowest_clock 5001 [810, 405])
       = Some (1500 # [210, 300])
   \<and> (8 :: uint) \<noteq> PERFORMANCE_STATE_HIGH
   \<and> enter_pstate True (nv_no_pstate 50 0) (sample_state 0 0) 8 0 0 0 0
       = (True,
          (sample_state 8 0)\<lparr>usingClockControl := True, minMemClock := 405,
             minGpuClock := 210, currentMemClock := 405, currentGpuClock := 210\<rparr>,
          [ForcePstate 8, SupportedMemoryClocks, SupportedGraphicsClocks 405, SetClocks 405 210])
   \<and> enter_pstate True (nv_no_pstate 50 9)
        ((sample_state 8 0)\<lparr>usingClockControl := True, minMemClock := 405,
           minGpuClock := 210, currentMemClock := 405, currentGpuClock := 210\<rparr>)
        16 0 0 0 0
       = (True,
          (sample_state 16 0)\<lparr>usingClockControl := True, minMemClock := 405,
             minGpuClock := 210\<rparr>,
          [ResetClocks])
   \<and> enableClockFallback default_options
   \<and> nvmlDeviceGetName (nv_ok 50 0)
   \<and> (\<exists>calls0. snd (init_device default_options (nv_ok 50 0) (sample_state 0 0))
          = DeviceName # SupportedMemoryClocks # calls0)
   \<and> [ForcePstate 8, SupportedMemoryClocks, SupportedGraphicsClocks 405, SetClocks 405 210]
       = [ForcePstate 8, SupportedMemoryClocks,
          SupportedGraphicsClocks (Min (set (5001 # [810, 405]))),
          spec_clock_call False 0 0 0 0 (Min (set (5001 # [810, 405])))
            (Min (set (1500 # [210, 300])))]
   \<and> filter is_clock_query
        [ForcePstate 8, SupportedMemoryClocks, SupportedGraphicsClocks 405, SetClocks 405 210]
       = [SupportedMemoryClocks, SupportedGraphicsClocks (Min (set (5001 # [810, 405])))]
   \<and> filter is_clock_query [ResetClocks] = []
   \<and> filter is_force_pstate [ResetClocks] = []"
proof -
  let ?s1 = "(sample_state 8 0)\<lparr>usingClockControl := True, minMemClock := 405,
             minGpuClock := 210, currentMemClock := 405, currentGpuClock := 210\<rparr>"
  let ?s2 = "(sample_state 16 0)\<lparr>usingClockControl := True, minMemClock := 405,
             minGpuClock := 210\<rparr>"
  have h1: "managed (sample_state 0 0)" by (simp add: sample_defs)
  have h2: "\<not> usingClockControl (sample_state 0 0)" by (simp add: sample_defs)
  have h3: "\<not> NvAPI_GPU_SetForcePstate (nv_no_pstate 50 0) 8" by (simp add: sample_defs)
  have h4: "nvmlDeviceGetSupportedMemoryClocks (nv_no_pstate 50 0) = Some (5001 # [810, 405])"
    by (simp add: sample_defs)
  have h5: "nvmlDeviceGetSupportedGraphicsClocks (nv_no_pstate 50 0)
              (lowest_clock 5001 [810, 405]) = Some (1500 # [210, 300])"
    by (simp add: sample_defs)
  have n6: "(8 :: uint) \<noteq> PERFORMANCE_STATE_HIGH" by (simp add: sample_defs)
  then have h6: "False \<longleftrightarrow> (8 :: uint) = PERFORMANCE_STATE_HIGH" by simp
  have h7: "enter_pstate True (nv_no_pstate 50 0) (sample_state 0 0) 8 0 0 0 0
       = (True, ?s1,
          [ForcePstate 8, SupportedMemoryClocks, SupportedGraphicsClocks 405, SetClocks 405 210])"
    by (simp add: sample_defs control_defs Let_def)
  have h8: "enter_pstate True (nv_no_pstate 50 9) ?s1 16 0 0 0 0 = (True, ?s2, [ResetClocks])"
    by (simp add: sample_defs control_defs Let_def)
  have h9: "enableClockFallback default_options" by (simp add: sample_defs)
  have h10: "nvmlDeviceGetName (nv_ok 50 0)" by (simp add: sample_defs)
  note t = first_failure_falls_back [OF h1 h2 h3 h4 h5 h6 h7 h8 h9 h10]
  note t1 = t [THEN conjunct2]
  note t2 = t1 [THEN conjunct2]
  note t8 = t2 [THEN conjunct2, THEN conjunct2, THEN conjunct2, THEN conjunct2,
                THEN conjunct2, THEN conjunct2]
  show ?thesis
    by (intro conjI h1 h2 h3 h4 h5 n6 h7 h8 h9 h10 t [THEN conjunct1] t1 [THEN conjunct1]
        t2 [THEN conjunct1] t8 [THEN conjunct1] t8 [THEN conjunct2, THEN conjunct1])
qed

section \<open>Shutdown\<close>

text \<open>
  C7, as the specification states it, fails: with the high performance state configured
  as 12, the normal exit forces a managed device on the performance-state path to state
  16, not 12.
\<close>

theorem shutdown_ignores_configured_high:
  "performanceStateHigh (default_options\<lparr>performanceStateHigh := 12\<rparr>) = 12
   \<and> normal_exit_device (default_options\<lparr>performanceStateHigh := 12\<rparr>) (nv_ok 50 0)
       (sample_state 8 0) = (Inr (sample_state 16 0), [ForcePstate 16])"
  by (simp add: sample_defs control_defs)

text \<open>
  C7, amended. At the normal exit, a device with \<open>usingClockControl\<close> set gets exactly one
  call, the reset of its application clocks, and its record is left as it is, whatever
  the call returns. A managed device without the flag gets \<open>NvAPI_GPU_SetForcePstate\<close>
  with state 16, whatever high state the options name, as its first call; when that call
  succeeds it is the only one and the record holds state 16 with counter 0.
\<close>

theorem shutdown_default:
  shows "(usingClockControl state \<longrightarrow>
            normal_exit_device opts h state = (Inr state, [ResetClocks]))
       \<and> (managed state \<and> \<not> usingClockControl state \<longrightarrow>
            (\<exists>calls. snd (normal_exit_device opts h state) = ForcePstate 16 # calls)
            \<and> (NvAPI_GPU_SetForcePstate h 16 \<longrightarrow>
                 normal_exit_device opts h state =
                   (Inr (state\<lparr>iterations := 0, pstateId := 16\<rparr>), [ForcePstate 16])))"
  by (auto simp: normal_exit_device_def or_errored_def enter_pstate_def entered_def
      split: prod.splits bool.splits)

theorem shutdown_default_witness:
  "normal_exit_device (default_options\<lparr>performanceStateHigh := 12\<rparr>) (nv_ok 50 0)
       ((sample_state 8 0)\<lparr>usingClockControl := True\<rparr>)
     = (Inr ((sample_state 8 0)\<lparr>usingClockControl := True\<rparr>), [ResetClocks])
   \<and> normal_exit_device (default_options\<lparr>performanceStateHigh := 12\<rparr>) (nv_ok 50 0)
       (sample_state 8 0)
     = (Inr ((sample_state 8 0)\<lparr>iterations := 0, pstateId := 16\<rparr>), [ForcePstate 16])"
proof -
  let ?opts = "default_options\<lparr>performanceStateHigh := 12\<rparr>"
  have o: "usingClockControl ((sample_state 8 0)\<lparr>usingClockControl := True\<rparr>)" by simp
  have n: "managed (sample_state 8 0) \<and> \<not> usingClockControl (sample_state 8 0)"
    by (simp add: sample_defs)
  have f: "NvAPI_GPU_SetForcePstate (nv_ok 50 0) 16" by (simp add: sample_defs)
  show ?thesis
    using o n f
      shutdown_default [of "(sample_state 8 0)\<lparr>usingClockControl := True\<rparr>" ?opts "nv_ok 50 0"]
      shutdown_default [of "sample_state 8 0" ?opts "nv_ok 50 0"]
    by blast
qed

section \<open>Sorting the handles\<close>

text \<open>
  C2. The code does not do this. With NVML bus ids 1 and 5 and NVAPI bus ids 1 and 7,
  the sorting block ends without an error; the slot of the device with bus id 5 is never
  written and is copied back into \<open>nvapiDevices\<close> as it is.
\<close>

theorem unmatched_bus_is_skipped:
  "reconcile [(Some 1, Some 1), (Some 5, Some 7)] [100, 200 :: nat] = Inr [Some 100, None]"
  by (simp add: reconcile_def sort_nvapi_handles_def)

text \<open>
  C8. For device lists of the same length, where the NVML bus ids are pairwise distinct
  and each of them occurs among the NVAPI bus ids, and all bus reads succeed, the sorting
  block succeeds and there is a bijection \<open>f\<close> on the indices such that slot \<open>i\<close> of the
  result holds the NVAPI handle of index \<open>f i\<close>, whose bus id is the NVML bus id of
  index \<open>i\<close>. With NVML bus ids 3, 1, 2 and NVAPI bus ids 1, 2, 3, where each NVAPI
  handle is written as its index, the result is the handles 2, 0, 1.
\<close>

theorem reconcile_bijection:
  assumes "length nvmlIds = length nvapiIds"
    and "length nvapiDevices = length nvapiIds"
    and "distinct nvmlIds"
    and "set nvmlIds \<subseteq> set nvapiIds"
  shows "(\<exists>f. bij_betw f {..<length nvmlIds} {..<length nvapiIds}
            \<and> (\<forall>i < length nvmlIds. nvapiIds ! f i = nvmlIds ! i)
            \<and> reconcile (zip (map Some nvmlIds) (map Some nvapiIds)) nvapiDevices
                = Inr (map (\<lambda>i. Some (nvapiDevices ! f i)) [0..<length nvmlIds]))
       \<and> reconcile [(Some 3, Some 1), (Some 1, Some 2), (Some 2, Some 3)] [0, 1, 2 :: nat]
           = Inr [Some 2, Some 0, Some 1]"
proof -
  let ?n = "length nvmlIds"
  define f where "f i = the (match_index (nvmlIds ! i) nvapiIds)" for i
  have m: "match_index (nvmlIds ! i) nvapiIds = Some (f i) \<and> f i < ?n
           \<and> nvapiIds ! f i = nvmlIds ! i" if "i < ?n" for i
  proof -
    have "nvmlIds ! i \<in> set nvapiIds" using that assms(4) by (auto simp: subset_iff)
    then show ?thesis using match_index_Some [of "nvmlIds ! i" nvapiIds] assms(1)
      by (auto simp: f_def)
  qed
  have inj: "inj_on f {..<?n}"
  proof (rule inj_onI)
    fix i k assume "i \<in> {..<?n}" "k \<in> {..<?n}" "f i = f k"
    then have "nvmlIds ! i = nvmlIds ! k" using m [of i] m [of k] by simp
    then show "i = k"
      using assms(3) \<open>i \<in> {..<?n}\<close> \<open>k \<in> {..<?n}\<close> by (simp add: nth_eq_iff_index_eq)
  qed
  have sub: "f ` {..<?n} \<subseteq> {..<?n}" using m by auto
  have "f ` {..<?n} = {..<?n}"
    using endo_inj_surj [OF _ sub inj] by simp
  then have bij: "bij_betw f {..<?n} {..<length nvapiIds}"
    using inj assms(1) by (simp add: bij_betw_def)
  have "sort_nvapi_handles nvmlIds nvapiIds nvapiDevices
          = map (\<lambda>i. Some (nvapiDevices ! f i)) [0..<?n]"
    by (rule nth_equalityI) (simp_all add: sort_nvapi_handles_def m)
  then have "reconcile (zip (map Some nvmlIds) (map Some nvapiIds)) nvapiDevices
                = Inr (map (\<lambda>i. Some (nvapiDevices ! f i)) [0..<?n])"
    by (simp add: reconcile_def read_identifiers_all_read [OF assms(1)])
  moreover have "reconcile [(Some 3, Some 1), (Some 1, Some 2), (Some 2, Some 3)] [0, 1, 2 :: nat]
           = Inr [Some 2, Some 0, Some 1]"
    by (simp add: reconcile_def sort_nvapi_handles_def)
  ultimately show ?thesis using bij m by blast
qed

theorem reconcile_bijection_witness:
  "length [3, 1, 2 :: uint] = length [1, 2, 3 :: uint]
   \<and> length [10, 11, 12 :: nat] = length [1, 2, 3 :: uint]
   \<and> distinct [3, 1, 2 :: uint]
   \<and> set [3, 1, 2 :: uint] \<subseteq> set [1, 2, 3 :: uint]
   \<and> (\<exists>f. bij_betw f {..<length [3, 1, 2 :: uint]} {..<length [1, 2, 3 :: uint]}
          \<and> (\<forall>i < length [3, 1, 2 :: uint]. [1, 2, 3 :: uint] ! f i = [3, 1, 2] ! i)
          \<and> reconcile (zip (map Some [3, 1, 2]) (map Some [1, 2, 3])) [10, 11, 12 :: nat]
              = Inr (map (\<lambda>i. Some ([10, 11, 12] ! f i)) [0..<length [3, 1, 2 :: uint]]))"
proof -
  have len: "length [3, 1, 2 :: uint] = length [1, 2, 3 :: uint]" by simp
  have han: "length [10, 11, 12 :: nat] = length [1, 2, 3 :: uint]" by simp
  have dis: "distinct [3, 1, 2 :: uint]" by simp
  have sub: "set [3, 1, 2 :: uint] \<subseteq> set [1, 2, 3 :: uint]" by simp
  show ?thesis
  proof (intro conjI)
    show "length [3, 1, 2 :: uint] = length [1, 2, 3 :: uint]" by (rule len)
    show "length [10, 11, 12 :: nat] = length [1, 2, 3 :: uint]" by (rule han)
    show "distinct [3, 1, 2 :: uint]" by (rule dis)
    show "set [3, 1, 2 :: uint] \<subseteq> set [1, 2, 3 :: uint]" by (rule sub)
    show "\<exists>f. bij_betw f {..<length [3, 1, 2 :: uint]} {..<length [1, 2, 3 :: uint]}
          \<and> (\<forall>i < length [3, 1, 2 :: uint]. [1, 2, 3 :: uint] ! f i = [3, 1, 2] ! i)
          \<and> reconcile (zip (map Some [3, 1, 2]) (map Some [1, 2, 3])) [10, 11, 12 :: nat]
              = Inr (map (\<lambda>i. Some ([10, 11, 12] ! f i)) [0..<length [3, 1, 2 :: uint]])"
      by (rule reconcile_bijection [OF len han dis sub, THEN conjunct1])
  qed
qed

section \<open>Unmanaged devices\<close>

text \<open>
  C9. For a device whose \<open>managed\<close> flag is false, \<open>enter_pstate\<close>, \<open>set_clocks\<close> and
  \<open>get_supported_clocks\<close> return true at once, leave the whole record as it was, and
  issue no library call.
\<close>

theorem unmanaged_untouched:
  assumes "\<not> managed state"
  shows "enter_pstate fallback h state p mh gh ml gl = (True, state, [])
       \<and> set_clocks h state hp mh gh ml gl = (True, state, [])
       \<and> get_supported_clocks h state = (True, state, [])"
  using assms by (simp add: enter_pstate_def set_clocks_def get_supported_clocks_def)

theorem unmanaged_untouched_witness:
  "\<not> managed zero_state
   \<and> enter_pstate True (nv_no_pstate 50 0) zero_state 8 0 0 0 0 = (True, zero_state, [])
   \<and> set_clocks (nv_no_pstate 50 0) zero_state False 0 0 0 0 = (True, zero_state, [])
   \<and> get_supported_clocks (nv_no_pstate 50 0) zero_state = (True, zero_state, [])"
proof -
  have unmanaged: "\<not> managed zero_state" by (simp add: zero_state_def)
  show ?thesis
    using unmanaged
      unmanaged_untouched [OF unmanaged, of True "nv_no_pstate 50 0" 8 0 0 0 0 False]
    by simp
qed

section \<open>The validation of the id list\<close>

text \<open>
  C10. The test \<open>id < 0\<close> is false for every id, so an id is rejected exactly when it
  is greater than \<open>deviceCount\<close>. The id equal to \<open>deviceCount\<close> is accepted and, when
  that index lies inside the array, the record at index \<open>deviceCount\<close>, one past the last
  enumerated device, is marked as managed.
\<close>

theorem id_equal_to_device_count:
  assumes "unat deviceCount < length gpuStates"
  shows "\<not> gid < (0 :: ulong)
       \<and> (invalid_id gid deviceCount \<longleftrightarrow> ucast deviceCount < gid)
       \<and> \<not> invalid_id (ucast deviceCount) deviceCount
       \<and> mark_managed [ucast deviceCount] deviceCount gpuStates
           = Some (gpuStates[unat deviceCount :=
                     (gpuStates ! unat deviceCount)\<lparr>managed := True\<rparr>])"
  using assms by (simp add: invalid_id_def mark_managed_def unat_widen)

theorem id_equal_to_device_count_witness:
  "unat (2 :: uint) < length (replicate 4 zero_state)
   \<and> \<not> invalid_id 2 2
   \<and> invalid_id 3 2
   \<and> mark_managed [2] 2 (replicate 4 zero_state)
       = Some [zero_state, zero_state, zero_state\<lparr>managed := True\<rparr>, zero_state]"
proof -
  have h: "unat (2 :: uint) < length (replicate 4 zero_state)" by simp
  have r: "replicate 4 zero_state = [zero_state, zero_state, zero_state, zero_state]"
    by (simp add: numeral_eq_Suc)
  show ?thesis
    using h id_equal_to_device_count [OF h, of 3] by (simp add: r)
qed

end
